theory Spec2Isabelle
  imports Complex_Main
begin

section \<open>Header menu (\<^verbatim>\<open>HeaderMenu\<close>)\<close>

text \<open>
  The header menu is a custom element whose handlers read the document (which element is
  the target, what a selector finds below it, what is hovered, how tall a box is laid
  out) and write a handful of attributes and inline style properties. The document
  structure is supplied by the browser and the theme's markup, so it is an environment
  the handlers are given; everything the handlers write is state that is passed through.
  Elements are identified by numbers.
\<close>

type_synonym node = nat

text \<open>
  An inline style value. The handlers write pixel lengths (a number followed by
  \<^verbatim>\<open>px\<close>) and the literals \<^verbatim>\<open>'1'\<close>, \<^verbatim>\<open>'0'\<close> and
  \<^verbatim>\<open>'none'\<close>.
\<close>

datatype css = Px nat | Lit string

text \<open>
  What the handlers write, and what the style sheet and the layout can therefore see:
  the \<^verbatim>\<open>ariaExpanded\<close> property of each element and of the menu itself, the
  menu's \<^verbatim>\<open>data-overflow-expanded\<close>, the set of submenus carrying
  \<^verbatim>\<open>data-active\<close>, the inline \<^verbatim>\<open>display\<close> of each element, the two custom
  properties on the header component and the opacity property on the menu.
\<close>

record dom =
  ariaExpanded :: "node \<Rightarrow> string option"
  menu_ariaExpanded :: "string option"
  overflowExpanded :: "string option"
  data_active :: "node set"
  display :: "node \<Rightarrow> string option"
  submenu_height :: "css option"
  full_open_header_height :: "css option"
  submenu_opacity :: "css option"

text \<open>
  What the handlers read. \<open>descendants\<close> lists the elements below an element in
  document order, so that \<^verbatim>\<open>querySelector\<close> is the first of them that matches.
  \<open>offsetHeight\<close> is the layout: the rendered height of an element, which depends on
  everything in \<^typ>\<open>dom\<close>. \<open>assignedElements\<close> stands for
  \<^verbatim>\<open>querySelector('slot')?.assignedElements()\<close> on the overflow panel.
\<close>

record env =
  headerComponent :: "node option"
  overflowMenu :: "node option"
  overflowListHovered :: bool
  slot_of :: "node \<Rightarrow> string"
  ref_of :: "node \<Rightarrow> string"
  isHTMLElement :: "node \<Rightarrow> bool"
  parentElement :: "node \<Rightarrow> node option"
  descendants :: "node \<Rightarrow> node list"
  hovered :: "node \<Rightarrow> bool"
  activeElement :: "node option"
  assignedElements :: "node list option"
  offsetHeight :: "dom \<Rightarrow> node \<Rightarrow> nat"
  overlap_bottom_row :: bool
  header_row_top :: "node option"

text \<open>
  A pointer or focus event. \<open>target = None\<close> is a target that is not an
  \<^verbatim>\<open>Element\<close>, \<open>relatedTarget = None\<close> a related target that is not a
  \<^verbatim>\<open>Node\<close> (it is \<^verbatim>\<open>null\<close> when the pointer leaves the window).
\<close>

record event =
  target :: "node option"
  relatedTarget :: "node option"
  ev_type :: string

text \<open>
  A mutation observer that is connected: its identity, the submenu it observes and the
  time (in milliseconds) at which it was created. A callback waiting for an animation
  frame remembers the submenu its closure captured.
\<close>

record watcher =
  wid :: nat
  observed :: node
  created :: nat

datatype frame_cb = FirstFrame node | SecondFrame node

text \<open>
  The component: \<^verbatim>\<open>#state.activeItem\<close>, the page it writes to,
  \<^verbatim>\<open>#submenuMutationObserver\<close> (the identity of the observer the field holds),
  every observer that is connected, the deadlines of the pending timeouts, the pending
  animation-frame callbacks, the clock, and the number of
  \<^verbatim>\<open>MegaMenuHoverEvent\<close>s dispatched so far.
\<close>

record menu =
  activeItem :: "node option"
  page :: dom
  submenuMutationObserver :: "nat option"
  attached :: "watcher list"
  fresh :: nat
  timers :: "nat list"
  frames :: "frame_cb list"
  now :: nat
  hover_events :: nat

subsection \<open>Document queries\<close>

definition querySelector :: "env \<Rightarrow> (node \<Rightarrow> bool) \<Rightarrow> node \<Rightarrow> node option" where
  "querySelector E P element = find P (descendants E element)"

definition contains :: "env \<Rightarrow> node \<Rightarrow> node option \<Rightarrow> bool" where
  "contains E m other =
     (case other of None \<Rightarrow> False | Some x \<Rightarrow> x = m \<or> x \<in> set (descendants E m))"

text \<open>
  \<^verbatim>\<open>findMenuItem\<close>: on the "more" item, the menu item of the first element slotted
  into the overflow; otherwise the first \<^verbatim>\<open>[ref="menuitem"]\<close> below the element.
  The recursion ends because the element found by \<^verbatim>\<open>[slot="overflow"]\<close> is not
  slotted as "more". (The source writes the first selector as \<^verbatim>\<open>[slot="more"\<close>;
  the bracket left open is closed by the selector parser at the end of its input.)
\<close>

function findMenuItem :: "env \<Rightarrow> node option \<Rightarrow> node option" where
  "findMenuItem E None = None"
| "findMenuItem E (Some element) =
     (if slot_of E element = ''more''
      then findMenuItem E
             (case parentElement E element of
                None \<Rightarrow> None
              | Some p \<Rightarrow> querySelector E (\<lambda>d. slot_of E d = ''overflow'') p)
      else querySelector E (\<lambda>d. ref_of E d = ''menuitem'') element)"
  by pat_completeness auto
termination
proof (relation "measure (\<lambda>(E, x). case x of None \<Rightarrow> 0
                     | Some e \<Rightarrow> if slot_of E e = ''more'' then 2 else 1)")
  show "wf (measure (\<lambda>(E, x). case x of None \<Rightarrow> 0
                     | Some e \<Rightarrow> if slot_of E e = ''more'' then 2 else (1::nat)))"
    by simp
next
  fix E :: env and element :: node
  assume more: "slot_of E element = ''more''"
  let ?next = "case parentElement E element of
                 None \<Rightarrow> None
               | Some p \<Rightarrow> querySelector E (\<lambda>d. slot_of E d = ''overflow'') p"
  have "\<And>q. ?next = Some q \<Longrightarrow> slot_of E q = ''overflow''"
    by (auto simp: querySelector_def find_Some_iff split: option.splits)
  then have "(case ?next of None \<Rightarrow> 0
              | Some e \<Rightarrow> if slot_of E e = ''more'' then 2 else (1::nat)) < 2"
    by (cases ?next) auto
  with more
  show "((E, ?next), (E, Some element))
          \<in> measure (\<lambda>(E, x). case x of None \<Rightarrow> 0
                       | Some e \<Rightarrow> if slot_of E e = ''more'' then 2 else 1)"
    by simp
qed

declare findMenuItem.simps [simp del]

text \<open>
  \<^verbatim>\<open>findSubmenu\<close>: the first \<^verbatim>\<open>[ref="submenu[]"]\<close> below the element's parent,
  when it is an \<^verbatim>\<open>HTMLElement\<close>.
\<close>

definition findSubmenu :: "env \<Rightarrow> node option \<Rightarrow> node option" where
  "findSubmenu E element =
     (case element of
        None \<Rightarrow> None
      | Some e \<Rightarrow>
          (case parentElement E e of
             None \<Rightarrow> None
           | Some p \<Rightarrow>
               (case querySelector E (\<lambda>d. ref_of E d = ''submenu[]'') p of
                  None \<Rightarrow> None
                | Some sub \<Rightarrow> if isHTMLElement E sub then Some sub else None)))"

subsection \<open>Writing to the page\<close>

definition set_ariaExpanded :: "node \<Rightarrow> string \<Rightarrow> menu \<Rightarrow> menu" where
  "set_ariaExpanded n v s =
     s\<lparr>page := (page s)\<lparr>ariaExpanded := (ariaExpanded (page s))(n := Some v)\<rparr>\<rparr>"

text \<open>
  The header component's style is reached through \<^verbatim>\<open>this.headerComponent?.style\<close>:
  without a header component nothing is written.
\<close>

definition set_submenu_height :: "env \<Rightarrow> nat \<Rightarrow> menu \<Rightarrow> menu" where
  "set_submenu_height E h s =
     (case headerComponent E of
        None \<Rightarrow> s
      | Some _ \<Rightarrow> s\<lparr>page := (page s)\<lparr>submenu_height := Some (Px h)\<rparr>\<rparr>)"

text \<open>\<^verbatim>\<open>#setFullOpenHeaderHeight\<close>.\<close>

definition setFullOpenHeaderHeight :: "env \<Rightarrow> nat \<Rightarrow> menu \<Rightarrow> menu" where
  "setFullOpenHeaderHeight E submenuHeight s =
     (case headerComponent E of
        None \<Rightarrow> s
      | Some header \<Rightarrow>
          let isOverlapSituation = overlap_bottom_row E;
              headerVisibleHeight =
                (if isOverlapSituation \<and> offsetHeight E (page s) header > 0
                 then (case header_row_top E of
                         None \<Rightarrow> 0
                       | Some row \<Rightarrow> offsetHeight E (page s) row)
                 else offsetHeight E (page s) header);
              nothingToOpen = (submenuHeight = 0);
              fullOpenHeaderHeight =
                (if nothingToOpen then 0 else submenuHeight + headerVisibleHeight)
          in s\<lparr>page := (page s)\<lparr>full_open_header_height := Some (Px fullOpenHeaderHeight)\<rparr>\<rparr>)"

text \<open>
  \<^verbatim>\<open>#cleanupMutationObserver\<close>: disconnect the observer the field holds, and
  clear the field.
\<close>

definition cleanupMutationObserver :: "menu \<Rightarrow> menu" where
  "cleanupMutationObserver s =
     s\<lparr>attached := filter (\<lambda>w. Some (wid w) \<noteq> submenuMutationObserver s) (attached s),
       submenuMutationObserver := None\<rparr>"

text \<open>
  \<^verbatim>\<open>#getOverflowListLinksHeight\<close>. The submenus of the links slotted into the
  overflow panel get \<^verbatim>\<open>display: none\<close>, the panel is measured, and the inline
  \<^verbatim>\<open>display\<close> of each is removed again. The result is the height and the state
  it leaves.
\<close>

definition panel_height :: "env \<Rightarrow> dom \<Rightarrow> nat" where
  "panel_height E d = (case overflowMenu E of None \<Rightarrow> 0 | Some panel \<Rightarrow> offsetHeight E d panel)"

definition link_submenus :: "env \<Rightarrow> node list \<Rightarrow> node list" where
  "link_submenus E links =
     concat (map (\<lambda>link. case querySelector E (\<lambda>d. ref_of E d = ''submenu[]'') link of
                            None \<Rightarrow> []
                          | Some submenu \<Rightarrow> [submenu]) links)"

definition set_display :: "string option \<Rightarrow> node list \<Rightarrow> dom \<Rightarrow> dom" where
  "set_display v subs d = fold (\<lambda>submenu d'. d'\<lparr>display := (display d')(submenu := v)\<rparr>) subs d"

definition getOverflowListLinksHeight :: "env \<Rightarrow> menu \<Rightarrow> nat \<times> menu" where
  "getOverflowListLinksHeight E s =
     (case (case overflowMenu E of None \<Rightarrow> None | Some _ \<Rightarrow> assignedElements E) of
        None \<Rightarrow> (panel_height E (page s), s)
      | Some slottedMenuLinks \<Rightarrow>
          let subs = link_submenus E slottedMenuLinks;
              hidden = set_display (Some ''none'') subs (page s);
              height = panel_height E hidden;
              restored = set_display None subs hidden
          in (height, s\<lparr>page := restored\<rparr>))"

subsection \<open>Activation\<close>

text \<open>
  Lines 91 to 103 of \<^verbatim>\<open>activate\<close>: the overflow flag, the previous item's expanded
  flag, the new active item, and the expanded flags of the menu and of the item.
\<close>

definition mark_item :: "bool \<Rightarrow> node \<Rightarrow> menu \<Rightarrow> menu" where
  "mark_item isDefaultSlot item s =
     (let s1 = s\<lparr>page := (page s)\<lparr>overflowExpanded :=
                  Some (if isDefaultSlot then ''false'' else ''true'')\<rparr>\<rparr>;
          previouslyActiveItem = activeItem s1;
          s2 = (case previouslyActiveItem of
                  None \<Rightarrow> s1
                | Some prev \<Rightarrow> set_ariaExpanded prev ''false'' s1);
          s3 = s2\<lparr>activeItem := Some item\<rparr>;
          s4 = s3\<lparr>page := (page s3)\<lparr>menu_ariaExpanded := Some ''true''\<rparr>\<rparr>
      in set_ariaExpanded item ''true'' s4)"

text \<open>
  Lines 112 to 137: the submenu is marked active, the observer of an earlier activation is
  cleaned up, a new observer is created and connected to the submenu, and a timeout of
  500 milliseconds is set that cleans up again.
\<close>

definition watch_submenu :: "node option \<Rightarrow> menu \<Rightarrow> menu" where
  "watch_submenu submenu s =
     (case submenu of
        None \<Rightarrow> s
      | Some sub \<Rightarrow>
          let s1 = s\<lparr>page := (page s)\<lparr>data_active := insert sub (data_active (page s))\<rparr>\<rparr>;
              s2 = cleanupMutationObserver s1;
              s3 = s2\<lparr>submenuMutationObserver := Some (fresh s2),
                      attached := attached s2 @
                        [\<lparr>wid = fresh s2, observed = sub, created = now s2\<rparr>],
                      fresh := Suc (fresh s2)\<rparr>
          in s3\<lparr>timers := timers s3 @ [now s3 + 500]\<rparr>)"

text \<open>Lines 139 to 157: the height to publish, and the state the measuring leaves.\<close>

definition measure_height :: "env \<Rightarrow> bool \<Rightarrow> bool \<Rightarrow> node option \<Rightarrow> menu \<Rightarrow> nat \<times> menu" where
  "measure_height E isDefaultSlot hasSubmenu submenu s =
     (let finalHeight0 = (case submenu of None \<Rightarrow> 0 | Some sub \<Rightarrow> offsetHeight E (page s) sub);
          (finalHeight1, s1) =
            (if \<not> isDefaultSlot
             then (let (overflowListHeight, s') = getOverflowListLinksHeight E s
                   in if hasSubmenu
                      then (let overflowHeight = panel_height E (page s')
                            in (max overflowHeight overflowListHeight, s'))
                      else (overflowListHeight, s'))
             else (finalHeight0, s));
          finalHeight = (if submenu = None then 0 else finalHeight1)
      in (finalHeight, s1))"

text \<open>Lines 159 to 161: the three style properties.\<close>

definition publish :: "env \<Rightarrow> nat \<Rightarrow> menu \<Rightarrow> menu" where
  "publish E finalHeight s =
     (let s1 = set_submenu_height E finalHeight s;
          s2 = setFullOpenHeaderHeight E finalHeight s1
      in s2\<lparr>page := (page s2)\<lparr>submenu_opacity := Some (Lit ''1'')\<rparr>\<rparr>)"

text \<open>
  The submenu an activation opens: the item's own, or the overflow panel when the item
  has none and its target is slotted (lines 105 to 110).
\<close>

definition opened_submenu :: "env \<Rightarrow> bool \<Rightarrow> node \<Rightarrow> node option" where
  "opened_submenu E isDefaultSlot item =
     (let submenu = findSubmenu E (Some item);
          hasSubmenu = (submenu \<noteq> None)
      in if \<not> hasSubmenu \<and> \<not> isDefaultSlot then overflowMenu E else submenu)"

text \<open>The state when line 139 is reached, for an activation that passed the guards.\<close>

definition marked_and_watched :: "env \<Rightarrow> node \<Rightarrow> node \<Rightarrow> menu \<Rightarrow> menu" where
  "marked_and_watched E t item s =
     (let isDefaultSlot = (slot_of E t = [])
      in watch_submenu (opened_submenu E isDefaultSlot item) (mark_item isDefaultSlot item s))"

text \<open>\<^verbatim>\<open>activate\<close>.\<close>

definition activate :: "env \<Rightarrow> event \<Rightarrow> menu \<Rightarrow> menu" where
  "activate E ev s =
     (let s0 = s\<lparr>hover_events := Suc (hover_events s)\<rparr>
      in case target ev of
           None \<Rightarrow> s0
         | Some t \<Rightarrow>
             if headerComponent E = None then s0
             else (case findMenuItem E (Some t) of
                     None \<Rightarrow> s0
                   | Some item \<Rightarrow>
                       if Some item = activeItem s0 then s0
                       else (let isDefaultSlot = (slot_of E t = []);
                                 hasSubmenu = (findSubmenu E (Some item) \<noteq> None);
                                 submenu = opened_submenu E isDefaultSlot item;
                                 s1 = marked_and_watched E t item s0;
                                 (finalHeight, s2) =
                                   measure_height E isDefaultSlot hasSubmenu submenu s1
                             in publish E finalHeight s2)))"

subsection \<open>Deactivation\<close>

text \<open>
  \<^verbatim>\<open>#deactivate\<close>. Both callers pass no argument, so the item is the active one.
\<close>

definition hash_deactivate :: "env \<Rightarrow> node option \<Rightarrow> menu \<Rightarrow> menu" where
  "hash_deactivate E item s =
     (case item of
        None \<Rightarrow> s
      | Some it \<Rightarrow>
          if Some it \<noteq> activeItem s then s
          else if overflowListHovered E
                  \<or> (case overflowMenu E of None \<Rightarrow> False | Some panel \<Rightarrow> hovered E panel)
          then s
          else (let s1 = set_submenu_height E 0 s;
                    s2 = setFullOpenHeaderHeight E 0 s1;
                    s3 = s2\<lparr>page := (page s2)\<lparr>submenu_opacity := Some (Lit ''0''),
                                             overflowExpanded := Some ''false''\<rparr>\<rparr>;
                    submenu = findSubmenu E (Some it);
                    s4 = s3\<lparr>activeItem := None\<rparr>;
                    s5 = s4\<lparr>page := (page s4)\<lparr>menu_ariaExpanded := Some ''false''\<rparr>\<rparr>;
                    s6 = set_ariaExpanded it ''false'' s5
                in case submenu of
                     None \<Rightarrow> s6
                   | Some sub \<Rightarrow>
                       s6\<lparr>page := (page s6)\<lparr>data_active := data_active (page s6) - {sub}\<rparr>\<rparr>))"

text \<open>The three tests of \<^verbatim>\<open>deactivate\<close>, lines 171 to 176.\<close>

definition isMovingWithinMenu :: "env \<Rightarrow> event \<Rightarrow> menu \<Rightarrow> bool" where
  "isMovingWithinMenu E ev s =
     (relatedTarget ev \<noteq> None \<and>
      (case findSubmenu E (activeItem s) of
         None \<Rightarrow> False
       | Some m \<Rightarrow> contains E m (activeElement E)))"

definition isMovingToSubmenu :: "env \<Rightarrow> event \<Rightarrow> menu \<Rightarrow> bool" where
  "isMovingToSubmenu E ev s =
     (relatedTarget ev \<noteq> None \<and> ev_type ev = ''blur'' \<and>
      (case findSubmenu E (activeItem s) of
         None \<Rightarrow> False
       | Some m \<Rightarrow> contains E m (relatedTarget ev)))"

definition isMovingToOverflowMenu :: "env \<Rightarrow> event \<Rightarrow> bool" where
  "isMovingToOverflowMenu E ev =
     (case relatedTarget ev of
        None \<Rightarrow> False
      | Some r \<Rightarrow>
          (case parentElement E r of
             None \<Rightarrow> False
           | Some p \<Rightarrow> slot_of E p = ''overflow''))"

text \<open>\<^verbatim>\<open>deactivate\<close>.\<close>

definition deactivate :: "env \<Rightarrow> event \<Rightarrow> menu \<Rightarrow> menu" where
  "deactivate E ev s =
     (case target ev of
        None \<Rightarrow> s
      | Some _ \<Rightarrow>
          if isMovingWithinMenu E ev s \<or> isMovingToOverflowMenu E ev \<or> isMovingToSubmenu E ev s
          then s
          else hash_deactivate E (activeItem s) s)"

subsection \<open>Callbacks: mutations, animation frames, timeouts\<close>

text \<open>
  The body of the innermost callback (lines 124 to 127), for the submenu its closure
  captured.
\<close>

definition measure_callback :: "env \<Rightarrow> node \<Rightarrow> menu \<Rightarrow> menu" where
  "measure_callback E submenu s =
     (if offsetHeight E (page s) submenu > 0
      then cleanupMutationObserver (set_submenu_height E (offsetHeight E (page s) submenu) s)
      else s)"

text \<open>
  A mutation below \<open>n\<close> is delivered to the connected observers whose submenu
  contains it; each requests an animation frame.
\<close>

definition mutation :: "env \<Rightarrow> node \<Rightarrow> menu \<Rightarrow> menu" where
  "mutation E n s =
     s\<lparr>frames := frames s @
         map (\<lambda>w. FirstFrame (observed w))
             (filter (\<lambda>w. contains E (observed w) (Some n)) (attached s))\<rparr>"

fun run_frame_cb :: "env \<Rightarrow> frame_cb \<Rightarrow> menu \<Rightarrow> menu" where
  "run_frame_cb E (FirstFrame submenu) s = s\<lparr>frames := frames s @ [SecondFrame submenu]\<rparr>"
| "run_frame_cb E (SecondFrame submenu) s = measure_callback E submenu s"

text \<open>
  An animation frame runs the callbacks that were pending when it began; what they
  request runs in the next frame.
\<close>

definition animation_frame :: "env \<Rightarrow> menu \<Rightarrow> menu" where
  "animation_frame E s = fold (run_frame_cb E) (frames s) (s\<lparr>frames := []\<rparr>)"

text \<open>
  Time passes. The clock is logical: a timeout runs when the clock reaches its deadline,
  and every timeout of the menu has the same callback, \<^verbatim>\<open>#cleanupMutationObserver\<close>.
\<close>

definition elapse :: "nat \<Rightarrow> menu \<Rightarrow> menu" where
  "elapse d s =
     (let t = now s + d;
          due = filter (\<lambda>deadline. deadline \<le> t) (timers s);
          s1 = s\<lparr>now := t, timers := filter (\<lambda>deadline. t < deadline) (timers s)\<rparr>
      in fold (\<lambda>_. cleanupMutationObserver) due s1)"

text \<open>
  The inputs of the component: the two handlers, the pointer leaving the overflow panel
  (\<^verbatim>\<open>#overflowSubmenuListener\<close>), a mutation, an animation frame, the passing of
  time, and \<^verbatim>\<open>disconnectedCallback\<close>.
\<close>

datatype input =
    Activate event
  | Deactivate event
  | OverflowPointerLeave
  | Mutation node
  | AnimationFrame
  | Elapse nat
  | Disconnected

fun step :: "env \<Rightarrow> input \<Rightarrow> menu \<Rightarrow> menu" where
  "step E (Activate ev) s = activate E ev s"
| "step E (Deactivate ev) s = deactivate E ev s"
| "step E OverflowPointerLeave s = hash_deactivate E (activeItem s) s"
| "step E (Mutation n) s = mutation E n s"
| "step E AnimationFrame s = animation_frame E s"
| "step E (Elapse d) s = elapse d s"
| "step E Disconnected s = cleanupMutationObserver s"

text \<open>
  A new component has no active item (\<^verbatim>\<open>#state = { activeItem: null }\<close>) and no
  observer. The page it starts on is the theme's markup. What \<^verbatim>\<open>connectedCallback\<close>
  adds besides (the preloading of images and the debounced resize listener) writes
  nothing of \<^typ>\<open>dom\<close> and is left out.
\<close>

definition initial :: "dom \<Rightarrow> nat \<Rightarrow> menu" where
  "initial d t =
     \<lparr>activeItem = None, page = d, submenuMutationObserver = None, attached = [],
      fresh = 0, timers = [], frames = [], now = t, hover_events = 0\<rparr>"

text \<open>
  The states the component reaches, from markup in which no element is expanded. The
  document may differ from one input to the next.
\<close>

inductive reachable :: "menu \<Rightarrow> bool" where
  reach_initial: "(\<And>n. ariaExpanded d n \<noteq> Some ''true'') \<Longrightarrow> reachable (initial d t)"
| reach_step: "reachable s \<Longrightarrow> reachable (step E i s)"


section \<open>Cart drawer (\<^verbatim>\<open>CartDrawerComponent\<close>)\<close>

subsection \<open>Numbers\<close>

text \<open>
  The heights a bounding rectangle reports are finite and not negative; their quotient is
  a JavaScript number, which may be infinite or not a number. Comparisons with
  \<^verbatim>\<open>NaN\<close> are false. Heights are taken as rationals and the quotient as exact:
  the rounding of the division is not part of the model.
\<close>

datatype jsnum = Finite rat | PosInfinity | NegInfinity | NaN

definition js_div :: "rat \<Rightarrow> rat \<Rightarrow> jsnum" where
  "js_div a b =
     (if b = 0
      then (if a = 0 then NaN else if 0 < a then PosInfinity else NegInfinity)
      else Finite (a / b))"

fun js_gt :: "jsnum \<Rightarrow> rat \<Rightarrow> bool" where
  "js_gt (Finite q) t = (t < q)"
| "js_gt PosInfinity t = True"
| "js_gt NegInfinity t = False"
| "js_gt NaN t = False"

fun js_le :: "jsnum \<Rightarrow> rat \<Rightarrow> bool" where
  "js_le (Finite q) t = (q \<le> t)"
| "js_le PosInfinity t = False"
| "js_le NegInfinity t = True"
| "js_le NaN t = False"

subsection \<open>Session history\<close>

text \<open>
  The state of a history entry is \<^verbatim>\<open>null\<close> or an object;
  \<^verbatim>\<open>history.state?.cartDrawerOpen\<close> is truthy on an object that carries the flag.
\<close>

datatype hstate = Null | StateObject bool

fun cartDrawerOpen :: "hstate \<Rightarrow> bool" where
  "cartDrawerOpen Null = False"
| "cartDrawerOpen (StateObject flag) = flag"

text \<open>
  The entries of the document: those behind the current one (the nearest first), the
  current one, and those ahead of it. \<^verbatim>\<open>history.back()\<close> only asks for a
  traversal, which the browser carries out later; \<open>pending_back\<close> counts the
  traversals asked for and not yet carried out.
\<close>

record history =
  back_entries :: "hstate list"
  current :: hstate
  forward_entries :: "hstate list"
  pending_back :: nat

definition pushState :: "hstate \<Rightarrow> history \<Rightarrow> history" where
  "pushState st h =
     h\<lparr>back_entries := current h # back_entries h, current := st, forward_entries := []\<rparr>"

definition replaceState :: "hstate \<Rightarrow> history \<Rightarrow> history" where
  "replaceState st h = h\<lparr>current := st\<rparr>"

definition history_back :: "history \<Rightarrow> history" where
  "history_back h = h\<lparr>pending_back := Suc (pending_back h)\<rparr>"

definition history_length :: "history \<Rightarrow> nat" where
  "history_length h = length (back_entries h) + 1 + length (forward_entries h)"

subsection \<open>The component\<close>

text \<open>
  The state of the drawer: whether the dialog is open, the dialog's
  \<^verbatim>\<open>cart-summary-sticky\<close> attribute and its inline
  \<^verbatim>\<open>--dialog-drawer-closing-animation\<close>, \<^verbatim>\<open>#historyAbortController\<close>
  (controllers are numbered as they are created), the signal with which
  \<^verbatim>\<open>#handlePopState\<close> is registered on the window (if it is), the controllers
  aborted so far, the session history, and for every close of the dialog whether the
  closing animation was switched off when it closed.
\<close>

record cart =
  dialog_open :: bool
  cart_summary_sticky :: "string option"
  closing_animation :: "string option"
  historyAbortController :: "nat option"
  popstate_listener :: "nat option"
  aborted :: "nat set"
  controllers :: nat
  hist :: history
  closed_without_animation :: "bool list"

text \<open>
  What the drawer reads: whether \<^verbatim>\<open>refs.dialog\<close> exists, whether the dialog has
  a \<^verbatim>\<open>.cart-drawer__content\<close>, the height of its
  \<^verbatim>\<open>.cart-drawer__summary\<close> (if it has one), the height of the dialog, whether
  the viewport is narrow, and whether the element carries \<^verbatim>\<open>auto-open\<close>.
\<close>

record view =
  has_dialog :: bool
  content_present :: bool
  summary_height :: "rat option"
  drawer_height :: rat
  isMobileBreakpoint :: bool
  auto_open :: bool

definition summaryThreshold :: rat where
  "summaryThreshold = 1 / 2"

text \<open>\<^verbatim>\<open>#updateStickyState\<close>.\<close>

definition updateStickyState :: "view \<Rightarrow> cart \<Rightarrow> cart" where
  "updateStickyState V s =
     (if \<not> has_dialog V then s
      else (case (content_present V, summary_height V) of
              (True, Some summaryHeight) \<Rightarrow>
                let drawerHeight = drawer_height V;
                    ratio = js_div summaryHeight drawerHeight
                in s\<lparr>cart_summary_sticky :=
                       Some (if js_gt ratio summaryThreshold then ''false'' else ''true'')\<rparr>
            | _ \<Rightarrow> s\<lparr>cart_summary_sticky := Some ''false''\<rparr>))"

text \<open>
  Aborting a controller removes the listener that was added with its signal. Adding a
  listener with a signal does nothing when the signal is aborted already or when the same
  callback is registered already.
\<close>

definition abort :: "nat \<Rightarrow> cart \<Rightarrow> cart" where
  "abort c s =
     s\<lparr>aborted := insert c (aborted s),
       popstate_listener := (if popstate_listener s = Some c then None else popstate_listener s)\<rparr>"

definition addPopStateListener :: "nat \<Rightarrow> cart \<Rightarrow> cart" where
  "addPopStateListener c s =
     (if c \<in> aborted s then s
      else if popstate_listener s = None then s\<lparr>popstate_listener := Some c\<rparr>
      else s)"

text \<open>\<^verbatim>\<open>#handleHistoryOpen\<close>.\<close>

definition handleHistoryOpen :: "view \<Rightarrow> cart \<Rightarrow> cart" where
  "handleHistoryOpen V s =
     (if \<not> isMobileBreakpoint V then s
      else (let s1 = (if \<not> cartDrawerOpen (current (hist s))
                      then s\<lparr>hist := pushState (StateObject True) (hist s)\<rparr>
                      else s);
                c = controllers s1;
                s2 = s1\<lparr>historyAbortController := Some c, controllers := Suc c\<rparr>
            in addPopStateListener c s2))"

text \<open>\<^verbatim>\<open>#handleHistoryClose\<close>.\<close>

definition handleHistoryClose :: "cart \<Rightarrow> cart" where
  "handleHistoryClose s =
     (let s1 = (case historyAbortController s of None \<Rightarrow> s | Some c \<Rightarrow> abort c s)
      in if cartDrawerOpen (current (hist s1))
         then s1\<lparr>hist := history_back (hist s1)\<rparr>
         else s1)"

text \<open>
  The listeners \<^verbatim>\<open>connectedCallback\<close> registers for the dialog's open and close
  events, in the order in which they were registered.
\<close>

definition on_dialog_open :: "view \<Rightarrow> cart \<Rightarrow> cart" where
  "on_dialog_open V s = handleHistoryOpen V (updateStickyState V s)"

definition on_dialog_close :: "cart \<Rightarrow> cart" where
  "on_dialog_close s = handleHistoryClose s"

text \<open>
  Modelled from the spec: \<^verbatim>\<open>showDialog\<close> and \<^verbatim>\<open>closeDialog\<close> of the
  theme's dialog component (\<^verbatim>\<open>@theme/dialog\<close>), which the drawer extends and
  imports. The spec says of them that they request the underlying dialog to show or hide
  itself, and that the drawer listens to the dialog's open and close signals.
  Showing a closed dialog opens it and signals the open; closing an open dialog closes it
  and signals the close. The closing animation is the style sheet's, which the inline
  property \<^verbatim>\<open>--dialog-drawer-closing-animation: none\<close> switches off.
\<close>

definition showDialog :: "view \<Rightarrow> cart \<Rightarrow> cart" where
  "showDialog V s =
     (if has_dialog V \<and> \<not> dialog_open s
      then on_dialog_open V (s\<lparr>dialog_open := True\<rparr>)
      else s)"

definition closeDialog :: "view \<Rightarrow> cart \<Rightarrow> cart" where
  "closeDialog V s =
     (if has_dialog V \<and> dialog_open s
      then on_dialog_close
             (s\<lparr>dialog_open := False,
                closed_without_animation :=
                  closed_without_animation s @ [closing_animation s = Some ''none'']\<rparr>)
      else s)"

text \<open>
  \<^verbatim>\<open>#handlePopState\<close>. The handler waits for the close to complete before it
  removes the property.
\<close>

definition handlePopState :: "view \<Rightarrow> cart \<Rightarrow> cart" where
  "handlePopState V s =
     (if has_dialog V \<and> dialog_open s
      then (let s1 = s\<lparr>closing_animation := Some ''none''\<rparr>;
                s2 = closeDialog V s1
            in s2\<lparr>closing_animation := None\<rparr>)
      else s)"

text \<open>\<^verbatim>\<open>#handleCartAdd\<close>, \<^verbatim>\<open>open\<close> and \<^verbatim>\<open>close\<close>.\<close>

definition handleCartAdd :: "view \<Rightarrow> cart \<Rightarrow> cart" where
  "handleCartAdd V s = (if auto_open V then showDialog V s else s)"

definition open_drawer :: "view \<Rightarrow> cart \<Rightarrow> cart" where
  "open_drawer V s = showDialog V s"

definition close_drawer :: "view \<Rightarrow> cart \<Rightarrow> cart" where
  "close_drawer V s = closeDialog V s"

text \<open>
  The part of \<^verbatim>\<open>connectedCallback\<close> that touches the history, and the part of
  \<^verbatim>\<open>disconnectedCallback\<close> that touches the controller.
\<close>

definition connectedCallback :: "cart \<Rightarrow> cart" where
  "connectedCallback s =
     (if cartDrawerOpen (current (hist s))
      then s\<lparr>hist := replaceState Null (hist s)\<rparr>
      else s)"

definition disconnectedCallback :: "cart \<Rightarrow> cart" where
  "disconnectedCallback s =
     (case historyAbortController s of None \<Rightarrow> s | Some c \<Rightarrow> abort c s)"

subsection \<open>Navigation\<close>

text \<open>
  A \<^verbatim>\<open>popstate\<close> event on the window reaches \<^verbatim>\<open>#handlePopState\<close> when it
  is registered. The browser carries out a traversal that \<^verbatim>\<open>history.back()\<close>
  asked for by moving to the entry behind the current one, if there is one, and firing
  \<^verbatim>\<open>popstate\<close>; the user's back button does the same without being asked.
\<close>

definition popstate :: "view \<Rightarrow> cart \<Rightarrow> cart" where
  "popstate V s = (if popstate_listener s \<noteq> None then handlePopState V s else s)"

definition move_back :: "history \<Rightarrow> history option" where
  "move_back h =
     (case back_entries h of
        [] \<Rightarrow> None
      | b # bs \<Rightarrow>
          Some (h\<lparr>back_entries := bs, current := b,
                  forward_entries := current h # forward_entries h\<rparr>))"

definition traverse_back :: "view \<Rightarrow> cart \<Rightarrow> cart" where
  "traverse_back V s =
     (if pending_back (hist s) = 0 then s
      else (let h = (hist s)\<lparr>pending_back := pending_back (hist s) - 1\<rparr>
            in case move_back h of
                 None \<Rightarrow> s\<lparr>hist := h\<rparr>
               | Some h' \<Rightarrow> popstate V (s\<lparr>hist := h'\<rparr>)))"

definition user_back :: "view \<Rightarrow> cart \<Rightarrow> cart" where
  "user_back V s =
     (case move_back (hist s) of
        None \<Rightarrow> s
      | Some h' \<Rightarrow> popstate V (s\<lparr>hist := h'\<rparr>))"

section \<open>What the properties are stated with\<close>

subsection \<open>Header menu\<close>

text \<open>
  The item an activation takes effect for: the one the guards of \<^verbatim>\<open>activate\<close>
  (lines 85 to 89) let through. \<open>resolves\<close> leaves out the last guard: the event's
  target is an element, the header component exists, and \<^verbatim>\<open>findMenuItem\<close> finds
  the item.
\<close>

definition activates :: "env \<Rightarrow> event \<Rightarrow> menu \<Rightarrow> node option" where
  "activates E ev s =
     (case target ev of
        None \<Rightarrow> None
      | Some t \<Rightarrow>
          if headerComponent E = None then None
          else (case findMenuItem E (Some t) of
                  None \<Rightarrow> None
                | Some item \<Rightarrow> if Some item = activeItem s then None else Some item))"

definition resolves :: "env \<Rightarrow> event \<Rightarrow> node \<Rightarrow> bool" where
  "resolves E ev item =
     (headerComponent E \<noteq> None \<and>
      (case target ev of None \<Rightarrow> False | Some t \<Rightarrow> findMenuItem E (Some t) = Some item))"


text \<open>Two views of the state: the active item with the expanded flags, and the watcher
  with the clock.\<close>

definition core :: "menu \<Rightarrow> node option \<times> (node \<Rightarrow> string option)" where
  "core s = (activeItem s, ariaExpanded (page s))"


text \<open>An element whose expanded flag is \<^verbatim>\<open>'true'\<close> is the active item.\<close>

definition expanded_is_active :: "menu \<Rightarrow> bool" where
  "expanded_is_active s =
     (\<forall>n. ariaExpanded (page s) n = Some ''true'' \<longrightarrow> activeItem s = Some n)"


text \<open>
  The height \<^verbatim>\<open>#getOverflowListLinksHeight\<close> measures on a page: the overflow
  panel's, with the submenus of the slotted links hidden when the panel has slotted
  links.
\<close>

definition list_links_height :: "env \<Rightarrow> dom \<Rightarrow> nat" where
  "list_links_height E d =
     (case (case overflowMenu E of None \<Rightarrow> None | Some _ \<Rightarrow> assignedElements E) of
        None \<Rightarrow> panel_height E d
      | Some links \<Rightarrow> panel_height E (set_display (Some ''none'') (link_submenus E links) d))"

subsection \<open>A small menu\<close>

text \<open>
  A menu with three items in the visible row (list items 1 and 4 with links 2 and 5 and
  submenus 3 and 6, a link 14 inside submenu 3, and list item 15 with link 16 and no
  submenu), two items slotted into the overflow (first list item 10 with link 11 and no
  submenu, then list item 7 with link 8 and submenu 9) and the "more" item 12 with link
  13. The list is element 50, the overflow panel 20, the header
  component 100. The panel is 300 pixels tall, and 200 when submenu 9 is hidden.
\<close>

definition demo :: env where
  "demo =
     \<lparr>headerComponent = Some 100,
      overflowMenu = Some 20,
      overflowListHovered = False,
      slot_of = (\<lambda>n. if n = 7 \<or> n = 10 then ''overflow'' else if n = 12 then ''more'' else []),
      ref_of = (\<lambda>n. if n \<in> {2, 5, 8, 11, 13, 16} then ''menuitem''
                     else if n \<in> {3, 6, 9} then ''submenu[]'' else []),
      isHTMLElement = (\<lambda>n. True),
      parentElement = (\<lambda>n. if n \<in> {2, 3} then Some 1
                            else if n \<in> {5, 6} then Some 4
                            else if n \<in> {8, 9} then Some 7
                            else if n = 11 then Some 10
                            else if n = 13 then Some 12
                            else if n = 14 then Some 3
                            else if n = 16 then Some 15
                            else if n \<in> {1, 4, 7, 10, 12, 15} then Some 50
                            else None),
      descendants = (\<lambda>n. if n = 1 then [2, 3, 14]
                          else if n = 3 then [14]
                          else if n = 4 then [5, 6]
                          else if n = 7 then [8, 9]
                          else if n = 10 then [11]
                          else if n = 12 then [13]
                          else if n = 15 then [16]
                          else if n = 50
                          then [1, 2, 3, 14, 4, 5, 6, 15, 16, 10, 11, 7, 8, 9, 12, 13]
                          else []),
      hovered = (\<lambda>n. False),
      activeElement = None,
      assignedElements = Some [10, 7],
      offsetHeight = (\<lambda>d n. if n = 3 then 120
                             else if n = 6 then 80
                             else if n = 9 then 60
                             else if n = 20 then (if display d 9 = Some ''none'' then 200 else 300)
                             else if n = 100 then 64
                             else 0),
      overlap_bottom_row = False,
      header_row_top = None\<rparr>"

definition blank :: dom where
  "blank =
     \<lparr>ariaExpanded = (\<lambda>n. None), menu_ariaExpanded = None, overflowExpanded = None,
      data_active = {}, display = (\<lambda>n. None), submenu_height = None,
      full_open_header_height = None, submenu_opacity = None\<rparr>"

definition pointerenter :: "node \<Rightarrow> event" where
  "pointerenter t = \<lparr>target = Some t, relatedTarget = None, ev_type = ''pointerenter''\<rparr>"

definition pointerleave :: "node \<Rightarrow> node option \<Rightarrow> event" where
  "pointerleave t to = \<lparr>target = Some t, relatedTarget = to, ev_type = ''pointerleave''\<rparr>"

text \<open>The menu after the pointer entered the first item.\<close>

definition first_active :: menu where
  "first_active = activate demo (pointerenter 1) (initial blank 0)"

text \<open>The same document with the keyboard focus on the link inside the first submenu.\<close>

definition focused :: env where
  "focused = demo\<lparr>activeElement := Some 14\<rparr>"

text \<open>
  The same document with the pointer over the first item and its submenu, and the event
  of the first link losing the focus to the second link.
\<close>

definition hovering :: env where
  "hovering = demo\<lparr>hovered := (\<lambda>n. n = 1 \<or> n = 3)\<rparr>"

definition blur :: "node \<Rightarrow> node option \<Rightarrow> event" where
  "blur t to = \<lparr>target = Some t, relatedTarget = to, ev_type = ''blur''\<rparr>"


subsection \<open>Cart drawer\<close>

text \<open>
  One round of the drawer on the history: the dialog's open signal, its close signal,
  and the browser carrying out the traversal the close asked for.
\<close>

definition open_close :: "view \<Rightarrow> cart \<Rightarrow> cart" where
  "open_close V s = traverse_back V (on_dialog_close (on_dialog_open V s))"

text \<open>
  A drawer that has just been connected, on a page with one earlier history entry.
\<close>

definition new_cart :: cart where
  "new_cart =
     connectedCallback
       \<lparr>dialog_open = False, cart_summary_sticky = None, closing_animation = None,
        historyAbortController = None, popstate_listener = None, aborted = {},
        controllers = 0,
        hist = \<lparr>back_entries = [Null], current = Null, forward_entries = [],
                 pending_back = 0\<rparr>,
        closed_without_animation = []\<rparr>"

text \<open>
  A narrow viewport with a dialog 400 pixels tall whose summary is 100 pixels tall; the
  same on a wide viewport; and the same with a dialog and a summary of no height.
\<close>

definition phone :: view where
  "phone =
     \<lparr>has_dialog = True, content_present = True, summary_height = Some 100,
      drawer_height = 400, isMobileBreakpoint = True, auto_open = False\<rparr>"

definition desktop :: view where
  "desktop = phone\<lparr>isMobileBreakpoint := False\<rparr>"

definition collapsed :: view where
  "collapsed = phone\<lparr>summary_height := Some 0, drawer_height := 0\<rparr>"

section \<open>The header menu: what each operation leaves alone\<close>

text \<open>
  Most operations touch only a part of the state. The expanded flags and the active
  item are written by three of them, the watcher and the clock by four.
\<close>

lemma ariaExpanded_set_display: "ariaExpanded (set_display v subs d) = ariaExpanded d"
  unfolding set_display_def by (induction subs arbitrary: d) simp_all

lemma core_set_submenu_height: "core (set_submenu_height E h s) = core s"
  by (simp add: core_def set_submenu_height_def split: option.splits)

lemma core_setFullOpenHeaderHeight: "core (setFullOpenHeaderHeight E h s) = core s"
  by (simp add: core_def setFullOpenHeaderHeight_def Let_def split: option.splits)

lemma core_cleanup: "core (cleanupMutationObserver s) = core s"
  by (simp add: core_def cleanupMutationObserver_def)

lemma core_getOverflow: "core (snd (getOverflowListLinksHeight E s)) = core s"
  by (simp add: core_def getOverflowListLinksHeight_def Let_def ariaExpanded_set_display
      split: option.splits)

lemma core_measure_height: "core (snd (measure_height E a b c s)) = core s"
  using core_getOverflow [of E s]
  by (simp add: measure_height_def Let_def split_beta)

lemma core_publish: "core (publish E h s) = core s"
  using core_setFullOpenHeaderHeight [of E h "set_submenu_height E h s"]
        core_set_submenu_height [of E h s]
  by (simp add: publish_def Let_def core_def)

lemma core_watch_submenu: "core (watch_submenu sub s) = core s"
  by (simp add: watch_submenu_def Let_def core_def cleanupMutationObserver_def split: option.splits)

lemma core_mark_item:
  "core (mark_item b item s) =
     (Some item, (case activeItem s of None \<Rightarrow> ariaExpanded (page s)
                  | Some prev \<Rightarrow> (ariaExpanded (page s))(prev := Some ''false''))
                 (item := Some ''true''))"
  by (simp add: mark_item_def Let_def core_def set_ariaExpanded_def split: option.splits)

lemma core_measure_callback: "core (measure_callback E sub s) = core s"
  by (simp add: measure_callback_def core_cleanup core_set_submenu_height)

lemma core_mutation: "core (mutation E n s) = core s"
  by (simp add: mutation_def core_def)

lemma core_run_frame_cb: "core (run_frame_cb E cb s) = core s"
  by (cases cb) (simp_all add: core_measure_callback, simp add: core_def)

lemma core_fold_frames: "core (fold (run_frame_cb E) cbs s) = core s"
  by (induction cbs arbitrary: s) (simp_all add: core_run_frame_cb)

lemma core_animation_frame: "core (animation_frame E s) = core s"
  by (simp add: animation_frame_def core_fold_frames) (simp add: core_def)

lemma core_fold_cleanup: "core (fold (\<lambda>_. cleanupMutationObserver) xs s) = core s"
  by (induction xs arbitrary: s) (simp_all add: core_cleanup)

lemma core_elapse: "core (elapse d s) = core s"
  by (simp add: elapse_def Let_def core_fold_cleanup) (simp add: core_def)










lemma hover_events_set_submenu_height: "hover_events (set_submenu_height E h s) = hover_events s"
  by (simp add: set_submenu_height_def split: option.splits)

lemma hover_events_setFullOpenHeaderHeight:
  "hover_events (setFullOpenHeaderHeight E h s) = hover_events s"
  by (simp add: setFullOpenHeaderHeight_def Let_def split: option.splits)

lemma hover_events_publish: "hover_events (publish E h s) = hover_events s"
  by (simp add: publish_def Let_def hover_events_setFullOpenHeaderHeight
      hover_events_set_submenu_height)

lemma hover_events_getOverflow:
  "hover_events (snd (getOverflowListLinksHeight E s)) = hover_events s"
  by (simp add: getOverflowListLinksHeight_def Let_def split: option.splits)

lemma hover_events_measure_height: "hover_events (snd (measure_height E a b c s)) = hover_events s"
  by (simp add: measure_height_def Let_def split_beta hover_events_getOverflow)

lemma hover_events_marked_and_watched:
  "hover_events (marked_and_watched E t item s) = hover_events s"
  by (simp add: marked_and_watched_def watch_submenu_def mark_item_def Let_def
      set_ariaExpanded_def cleanupMutationObserver_def split: option.splits)

text \<open>
  An activation that the guards stop only counts the hover event; one that they let
  through marks, watches, measures and publishes.
\<close>

lemma activate_guarded:
  "activates E ev s = None \<Longrightarrow> activate E ev s = s\<lparr>hover_events := Suc (hover_events s)\<rparr>"
  by (simp add: activates_def activate_def Let_def split: option.splits if_splits)

lemma activate_unfolded:
  assumes "activates E ev s = Some item" and "target ev = Some t"
  shows "activate E ev s =
     (let s0 = s\<lparr>hover_events := Suc (hover_events s)\<rparr>;
          isDefaultSlot = (slot_of E t = []);
          m = measure_height E isDefaultSlot (findSubmenu E (Some item) \<noteq> None)
                (opened_submenu E isDefaultSlot item) (marked_and_watched E t item s0)
      in publish E (fst m) (snd m))"
  using assms
  by (auto simp: activates_def activate_def Let_def split_beta split: option.splits if_splits)

lemma core_activate:
  "activates E ev s = Some item \<Longrightarrow>
   core (activate E ev s) =
     (Some item, (case activeItem s of None \<Rightarrow> ariaExpanded (page s)
                  | Some prev \<Rightarrow> (ariaExpanded (page s))(prev := Some ''false''))
                 (item := Some ''true''))"
  by (auto simp: activates_def activate_def Let_def split_beta core_publish core_measure_height
      marked_and_watched_def core_watch_submenu core_mark_item
      split: option.splits if_splits)

lemma hash_deactivate_skip:
  "item = None \<or> item \<noteq> activeItem s \<or> overflowListHovered E
     \<or> (case overflowMenu E of None \<Rightarrow> False | Some panel \<Rightarrow> hovered E panel) \<Longrightarrow>
   hash_deactivate E item s = s"
  by (auto simp: hash_deactivate_def split: option.splits)

lemma core_hash_deactivate_run:
  assumes "activeItem s = Some it"
    and "\<not> (overflowListHovered E
            \<or> (case overflowMenu E of None \<Rightarrow> False | Some panel \<Rightarrow> hovered E panel))"
  shows "core (hash_deactivate E (Some it) s) = (None, (ariaExpanded (page s))(it := Some ''false''))"
  using core_setFullOpenHeaderHeight [of E 0 "set_submenu_height E 0 s"]
        core_set_submenu_height [of E 0 s] assms
  by (simp add: hash_deactivate_def Let_def core_def set_ariaExpanded_def split: option.splits)

lemma core_hash_deactivate:
  "core (hash_deactivate E item s) = core s \<or>
   (\<exists>it. activeItem s = Some it \<and>
      core (hash_deactivate E item s) = (None, (ariaExpanded (page s))(it := Some ''false'')))"
proof (cases "item = None \<or> item \<noteq> activeItem s \<or> overflowListHovered E
     \<or> (case overflowMenu E of None \<Rightarrow> False | Some panel \<Rightarrow> hovered E panel)")
  case True
  then show ?thesis by (simp only: hash_deactivate_skip) simp
next
  case False
  then obtain it where it: "item = Some it" "activeItem s = Some it" by auto
  with False core_hash_deactivate_run [of s it E] show ?thesis by simp
qed

lemma core_deactivate:
  "core (deactivate E ev s) = core s \<or>
   (\<exists>it. activeItem s = Some it \<and>
      core (deactivate E ev s) = (None, (ariaExpanded (page s))(it := Some ''false'')))"
  using core_hash_deactivate [of E "activeItem s" s]
  by (simp add: deactivate_def split: option.splits)

section \<open>The header menu: one active item\<close>

lemma expanded_is_active_core:
  "core s' = core s \<Longrightarrow> expanded_is_active s \<Longrightarrow> expanded_is_active s'"
  by (simp add: core_def expanded_is_active_def)

lemma expanded_is_active_cleared:
  "activeItem s = Some it \<Longrightarrow> core s' = (None, (ariaExpanded (page s))(it := Some ''false'')) \<Longrightarrow>
   expanded_is_active s \<Longrightarrow> expanded_is_active s'"
  by (auto simp: core_def expanded_is_active_def split: if_splits)

lemma expanded_is_active_activate:
  assumes "expanded_is_active s"
  shows "expanded_is_active (activate E ev s)"
proof (cases "activates E ev s")
  case None
  then show ?thesis using assms by (simp add: activate_guarded expanded_is_active_def)
next
  case (Some item)
  from core_activate [OF Some] assms show ?thesis
    by (auto simp: core_def expanded_is_active_def split: option.splits if_splits)
qed

lemma expanded_is_active_step:
  assumes "expanded_is_active s"
  shows "expanded_is_active (step E i s)"
proof (cases i)
  case (Activate ev)
  then show ?thesis using assms by (simp add: expanded_is_active_activate)
next
  case (Deactivate ev)
  then show ?thesis
    using core_deactivate [of E ev s] assms
    by (auto intro: expanded_is_active_core expanded_is_active_cleared)
next
  case OverflowPointerLeave
  then show ?thesis
    using core_hash_deactivate [of E "activeItem s" s] assms
    by (auto intro: expanded_is_active_core expanded_is_active_cleared)
next
  case (Mutation n)
  then show ?thesis using assms by (simp add: expanded_is_active_core [OF core_mutation])
next
  case AnimationFrame
  then show ?thesis using assms by (simp add: expanded_is_active_core [OF core_animation_frame])
next
  case (Elapse d)
  then show ?thesis using assms by (simp add: expanded_is_active_core [OF core_elapse])
next
  case Disconnected
  then show ?thesis using assms by (simp add: expanded_is_active_core [OF core_cleanup])
qed

lemma expanded_is_active_reachable: "reachable s \<Longrightarrow> expanded_is_active s"
proof (induction rule: reachable.induct)
  case (reach_initial d t)
  then show ?case by (simp add: expanded_is_active_def initial_def)
next
  case (reach_step s E i)
  then show ?case by (simp add: expanded_is_active_step)
qed

lemma activeItem_activate:
  assumes "resolves E ev item"
  shows "activeItem (activate E ev s) = Some item"
proof (cases "activates E ev s")
  case None
  with assms have "activeItem s = Some item"
    by (auto simp: activates_def resolves_def split: option.splits if_splits)
  with None show ?thesis by (simp add: activate_guarded)
next
  case (Some it)
  with assms have "it = item"
    by (auto simp: activates_def resolves_def split: option.splits if_splits)
  with core_activate [OF Some] show ?thesis by (simp add: core_def)
qed

lemma ariaExpanded_switch:
  assumes "resolves E ev b" and "activeItem s = Some a" and "a \<noteq> b"
  shows "ariaExpanded (page (activate E ev s)) a = Some ''false'' \<and>
         ariaExpanded (page (activate E ev s)) b = Some ''true''"
proof -
  from assms have "activates E ev s = Some b"
    by (auto simp: activates_def resolves_def split: option.splits)
  from core_activate [OF this] assms(2,3) show ?thesis
    by (simp add: core_def)
qed

text \<open>
  Claim C1. In every state the menu reaches, at most one element has its expanded flag
  set to \<^verbatim>\<open>'true'\<close>. And whenever an activation that resolves to an item
  \<open>a\<close> is followed by one that resolves to a different item \<open>b\<close>, the flag of
  \<open>a\<close> is \<^verbatim>\<open>'false'\<close> and the flag of \<open>b\<close> is \<^verbatim>\<open>'true'\<close>
  afterwards. The document may have changed between the two activations. The states
  reached are those from markup in which no element is expanded.
\<close>

theorem at_most_one_item_expanded:
  assumes "reachable s"
  shows "(\<forall>n m. ariaExpanded (page s) n = Some ''true'' \<and> ariaExpanded (page s) m = Some ''true''
            \<longrightarrow> n = m) \<and>
         (\<forall>E1 E2 evA evB a b. resolves E1 evA a \<and> resolves E2 evB b \<and> a \<noteq> b \<longrightarrow>
            ariaExpanded (page (activate E2 evB (activate E1 evA s))) a = Some ''false'' \<and>
            ariaExpanded (page (activate E2 evB (activate E1 evA s))) b = Some ''true'' \<and>
            reachable (activate E2 evB (activate E1 evA s)))"
proof (intro conjI allI impI)
  fix n m
  assume "ariaExpanded (page s) n = Some ''true'' \<and> ariaExpanded (page s) m = Some ''true''"
  with expanded_is_active_reachable [OF assms]
  have "activeItem s = Some n" and "activeItem s = Some m"
    by (simp_all add: expanded_is_active_def)
  then show "n = m" by simp
next
  fix E1 E2 evA evB a b
  assume h: "resolves E1 evA a \<and> resolves E2 evB b \<and> a \<noteq> b"
  then have act: "activeItem (activate E1 evA s) = Some a"
    by (simp add: activeItem_activate)
  from ariaExpanded_switch [OF _ act, of E2 evB b] h
  show "ariaExpanded (page (activate E2 evB (activate E1 evA s))) a = Some ''false''"
    and "ariaExpanded (page (activate E2 evB (activate E1 evA s))) b = Some ''true''"
    by simp_all
  have "reachable (step E2 (Activate evB) (step E1 (Activate evA) s))"
    by (intro reachable.reach_step assms)
  then show "reachable (activate E2 evB (activate E1 evA s))" by simp
qed

text \<open>
  The pointer enters the first item and then the second one of the small menu.
\<close>

lemma reachable_blank: "reachable (initial blank 0)"
  by (rule reachable.reach_initial) (simp add: blank_def)

theorem at_most_one_item_expanded_witness:
  "reachable (initial blank 0) \<and> resolves demo (pointerenter 1) 2 \<and> resolves demo (pointerenter 4) 5 \<and>
   ariaExpanded (page (activate demo (pointerenter 4) (activate demo (pointerenter 1) (initial blank 0)))) 2
     = Some ''false'' \<and>
   ariaExpanded (page (activate demo (pointerenter 4) (activate demo (pointerenter 1) (initial blank 0)))) 5
     = Some ''true''"
proof -
  have r1: "resolves demo (pointerenter 1) 2" and r2: "resolves demo (pointerenter 4) 5"
    by code_simp+
  have ne: "(2::nat) \<noteq> 5" by simp
  from at_most_one_item_expanded [OF reachable_blank] r1 r2 ne reachable_blank
  show ?thesis by blast
qed

text \<open>
  Claim C7. When the item an activation resolves to is the active item already, the
  activation changes nothing but the count of hover events: the active item, every flag,
  every style property, the watcher and the pending timeouts stay as they were.
\<close>

theorem activate_active_item_again:
  assumes "target ev = Some t" and "findMenuItem E (Some t) = Some item"
    and "activeItem s = Some item"
  shows "activate E ev s = s\<lparr>hover_events := Suc (hover_events s)\<rparr>"
proof -
  from assms have "activates E ev s = None" by (simp add: activates_def)
  then show ?thesis by (rule activate_guarded)
qed

text \<open>
  The pointer enters the first item of the small menu a second time.
\<close>

theorem activate_active_item_again_witness:
  "target (pointerenter 1) = Some 1 \<and> findMenuItem demo (Some 1) = Some 2 \<and>
   activeItem first_active = Some 2 \<and>
   activate demo (pointerenter 1) first_active =
     first_active\<lparr>hover_events := Suc (hover_events first_active)\<rparr>"
proof -
  have a: "target (pointerenter 1) = Some 1" by (simp add: pointerenter_def)
  have b: "findMenuItem demo (Some 1) = Some 2" by code_simp
  have c: "activeItem first_active = Some 2" by code_simp
  from activate_active_item_again [OF a b c] a b c show ?thesis by simp
qed

text \<open>
  Claim C10. Every call of \<^verbatim>\<open>activate\<close> dispatches exactly one hover event,
  whatever the event, the document and the state; when a guard stops the activation (the
  target is no element, there is no header component, no menu item is found, or the item
  is active already) the hover event is all that happens.
\<close>

theorem activate_dispatches_hover_event:
  "hover_events (activate E ev s) = Suc (hover_events s) \<and>
   (activates E ev s = None \<longrightarrow> activate E ev s = s\<lparr>hover_events := Suc (hover_events s)\<rparr>)"
proof (cases "activates E ev s")
  case None
  then show ?thesis by (simp add: activate_guarded)
next
  case (Some item)
  then obtain t where t: "target ev = Some t"
    by (auto simp: activates_def split: option.splits)
  show ?thesis
    using Some
    by (simp add: activate_unfolded [OF Some t] Let_def hover_events_publish
        hover_events_measure_height hover_events_marked_and_watched)
qed

text \<open>
  Without a header component, without an element as target, on the active item, and on
  another item: the count goes from one to two each time.
\<close>

theorem activate_dispatches_hover_event_witness:
  "activates (demo\<lparr>headerComponent := None\<rparr>) (pointerenter 1) first_active = None \<and>
   hover_events first_active = 1 \<and>
   hover_events (activate (demo\<lparr>headerComponent := None\<rparr>) (pointerenter 1) first_active) = 2 \<and>
   hover_events (activate demo \<lparr>target = None, relatedTarget = None, ev_type = ''focus''\<rparr> first_active) = 2 \<and>
   hover_events (activate demo (pointerenter 1) first_active) = 2 \<and>
   hover_events (activate demo (pointerenter 4) first_active) = 2"
proof -
  have h: "hover_events first_active = 1" by code_simp
  have n: "activates (demo\<lparr>headerComponent := None\<rparr>) (pointerenter 1) first_active = None"
    by code_simp
  show ?thesis
    using activate_dispatches_hover_event [of "demo\<lparr>headerComponent := None\<rparr>" "pointerenter 1" first_active]
      activate_dispatches_hover_event [of demo "\<lparr>target = None, relatedTarget = None, ev_type = ''focus''\<rparr>" first_active]
      activate_dispatches_hover_event [of demo "pointerenter 1" first_active]
      activate_dispatches_hover_event [of demo "pointerenter 4" first_active]
      h n
    by simp
qed

text \<open>
  Claim C6. Switching from an active item to another one clears the expanded flag of
  the first, makes the second the active item and sets the expanded flags of the menu and
  of the second item. It does not unmark the submenu of the first. In the small menu the
  first item is active, its submenu 3 is marked and the focus is inside it; the pointer
  moves from the first item to the second. The deactivation is suppressed, and the
  activation of the second item leaves both submenus 3 and 6 marked. Only
  \<^verbatim>\<open>#deactivate\<close> removes a mark.
\<close>

theorem switch_keeps_previous_submenu_marked:
  "activeItem first_active = Some 2 \<and>
   findSubmenu focused (Some 2) = Some 3 \<and>
   data_active (page first_active) = {3} \<and>
   isMovingWithinMenu focused (pointerleave 1 (Some 4)) first_active \<and>
   activeItem (deactivate focused (pointerleave 1 (Some 4)) first_active) = Some 2 \<and>
   data_active (page (deactivate focused (pointerleave 1 (Some 4)) first_active)) = {3} \<and>
   activates focused (pointerenter 4) (deactivate focused (pointerleave 1 (Some 4)) first_active)
     = Some 5 \<and>
   activeItem (activate focused (pointerenter 4)
                 (deactivate focused (pointerleave 1 (Some 4)) first_active)) = Some 5 \<and>
   ariaExpanded (page (activate focused (pointerenter 4)
                 (deactivate focused (pointerleave 1 (Some 4)) first_active))) 2 = Some ''false'' \<and>
   ariaExpanded (page (activate focused (pointerenter 4)
                 (deactivate focused (pointerleave 1 (Some 4)) first_active))) 5 = Some ''true'' \<and>
   menu_ariaExpanded (page (activate focused (pointerenter 4)
                 (deactivate focused (pointerleave 1 (Some 4)) first_active))) = Some ''true'' \<and>
   data_active (page (activate focused (pointerenter 4)
                 (deactivate focused (pointerleave 1 (Some 4)) first_active))) = {3, 6}"
  by code_simp

section \<open>The header menu: suppressed deactivation\<close>

text \<open>
  Claim C8, as the code has it. A deactivation input leaves the whole state as it was
  when one of the tests of \<^verbatim>\<open>deactivate\<close> holds (the event has a related target
  and the focused element is inside the active item's submenu; the event is a blur whose
  related target is inside that submenu; the parent of the related target is slotted
  into the overflow) or when the overflow list or the overflow panel is hovered.
\<close>

theorem deactivate_suppressed:
  assumes "isMovingWithinMenu E ev s \<or> isMovingToSubmenu E ev s \<or> isMovingToOverflowMenu E ev
           \<or> overflowListHovered E
           \<or> (case overflowMenu E of None \<Rightarrow> False | Some panel \<Rightarrow> hovered E panel)"
  shows "deactivate E ev s = s"
proof (cases "isMovingWithinMenu E ev s \<or> isMovingToOverflowMenu E ev \<or> isMovingToSubmenu E ev s")
  case True
  then show ?thesis by (simp add: deactivate_def split: option.splits)
next
  case False
  with assms have "overflowListHovered E
           \<or> (case overflowMenu E of None \<Rightarrow> False | Some panel \<Rightarrow> hovered E panel)"
    by blast
  then have "hash_deactivate E (activeItem s) s = s"
    by (simp add: hash_deactivate_skip)
  then show ?thesis by (simp add: deactivate_def split: option.splits)
qed

text \<open>
  The pointer leaves the first item towards the link inside its submenu, which has the
  focus.
\<close>

theorem deactivate_suppressed_witness:
  "isMovingWithinMenu focused (pointerleave 1 (Some 14)) first_active \<and>
   deactivate focused (pointerleave 1 (Some 14)) first_active = first_active \<and>
   activeItem first_active = Some 2"
proof -
  have a: "isMovingWithinMenu focused (pointerleave 1 (Some 14)) first_active" by code_simp
  have c: "activeItem first_active = Some 2" by code_simp
  from deactivate_suppressed [of focused "pointerleave 1 (Some 14)" first_active] a c
  show ?thesis by simp
qed

text \<open>
  The claim as it is stated fails when the event has no related target: the first item
  is active, the focus is on the link inside its submenu, the pointer leaves the item and
  the window, and the activation is cleared with the height and the opacity set to zero.
  It fails for the pointer as well: with the pointer over the submenu of the active item,
  the blur of its link towards the link of the second item clears the activation.
\<close>

theorem deactivate_with_focus_in_submenu_counterexample:
  "activeItem first_active = Some 2 \<and>
   findSubmenu focused (activeItem first_active) = Some 3 \<and>
   contains focused 3 (activeElement focused) \<and>
   ariaExpanded (page first_active) 2 = Some ''true'' \<and>
   submenu_height (page first_active) = Some (Px 120) \<and>
   activeItem (deactivate focused (pointerleave 1 None) first_active) = None \<and>
   ariaExpanded (page (deactivate focused (pointerleave 1 None) first_active)) 2 = Some ''false'' \<and>
   submenu_height (page (deactivate focused (pointerleave 1 None) first_active)) = Some (Px 0) \<and>
   submenu_opacity (page (deactivate focused (pointerleave 1 None) first_active)) = Some (Lit ''0'') \<and>
   findSubmenu hovering (activeItem first_active) = Some 3 \<and>
   hovered hovering 3 \<and>
   activeItem (deactivate hovering (blur 2 (Some 5)) first_active) = None \<and>
   ariaExpanded (page (deactivate hovering (blur 2 (Some 5)) first_active)) 2 = Some ''false'' \<and>
   submenu_height (page (deactivate hovering (blur 2 (Some 5)) first_active)) = Some (Px 0)"
  by code_simp

section \<open>The header menu: the mutation watcher\<close>







































text \<open>
  An observer can be disconnected sooner, by the timeout of an earlier activation: the
  second item is activated 400 milliseconds after the first, and its observer is
  disconnected 100 milliseconds later.
\<close>

lemma earlier_timeout_disconnects_later_watcher:
  "attached (activate demo (pointerenter 4) (elapse 400 first_active)) =
     [\<lparr>wid = 1, observed = 6, created = 400\<rparr>] \<and>
   attached (elapse 100 (activate demo (pointerenter 4) (elapse 400 first_active))) = []"
  by code_simp

section \<open>The header menu: the height of an overflow activation\<close>

lemma submenu_height_publish:
  "headerComponent E \<noteq> None \<Longrightarrow> submenu_height (page (publish E h s)) = Some (Px h)"
  by (auto simp: publish_def Let_def set_submenu_height_def setFullOpenHeaderHeight_def
      split: option.splits)

lemma fst_getOverflowListLinksHeight:
  "fst (getOverflowListLinksHeight E s) = list_links_height E (page s)"
  by (simp add: getOverflowListLinksHeight_def list_links_height_def Let_def split: option.splits)

lemma fst_measure_height_slotted:
  "fst (measure_height E False hasSubmenu submenu s) =
     (if submenu = None then 0
      else if hasSubmenu
      then max (panel_height E (page (snd (getOverflowListLinksHeight E s))))
               (list_links_height E (page s))
      else list_links_height E (page s))"
  by (simp add: measure_height_def Let_def split_beta fst_getOverflowListLinksHeight)

lemma list_links_height_no_panel: "overflowMenu E = None \<Longrightarrow> list_links_height E d = 0"
  by (simp add: list_links_height_def panel_height_def)

text \<open>
  Claim C5, as the code has it. An activation that takes effect on a target that is
  slotted publishes, when the item has a submenu of its own, the larger of the overflow
  panel's height and the height of the panel measured with the submenus of its slotted
  links hidden; when the item has no submenu of its own, it publishes the second of the
  two alone.
\<close>

theorem overflow_activation_height:
  assumes "activates E ev s = Some item" and "target ev = Some t" and "slot_of E t \<noteq> []"
  shows "submenu_height (page (activate E ev s)) =
     Some (Px (let s1 = marked_and_watched E t item (s\<lparr>hover_events := Suc (hover_events s)\<rparr>);
                   listHeight = list_links_height E (page s1);
                   panelHeight = panel_height E (page (snd (getOverflowListLinksHeight E s1)))
               in if findSubmenu E (Some item) \<noteq> None then max panelHeight listHeight
                  else listHeight))"
proof -
  from assms(1) have header: "headerComponent E \<noteq> None"
    by (auto simp: activates_def split: option.splits if_splits)
  show ?thesis
  proof (cases "findSubmenu E (Some item)")
    case None
    show ?thesis
    proof (cases "overflowMenu E")
      case None
      with \<open>findSubmenu E (Some item) = None\<close> assms(3) header show ?thesis
        by (simp add: activate_unfolded [OF assms(1,2)] Let_def submenu_height_publish
            fst_measure_height_slotted opened_submenu_def list_links_height_no_panel)
    next
      case (Some panel)
      with \<open>findSubmenu E (Some item) = None\<close> assms(3) header show ?thesis
        by (simp add: activate_unfolded [OF assms(1,2)] Let_def submenu_height_publish
            fst_measure_height_slotted opened_submenu_def)
    qed
  next
    case (Some sub)
    with assms(3) header show ?thesis
      by (simp add: activate_unfolded [OF assms(1,2)] Let_def submenu_height_publish
          fst_measure_height_slotted opened_submenu_def)
  qed
qed

text \<open>
  In the small menu the overflow item with a submenu publishes 300 pixels, the larger of
  300 and 200; the one without publishes 200.
\<close>

theorem overflow_activation_height_witness:
  "activates demo (pointerenter 7) (initial blank 0) = Some 8 \<and>
   slot_of demo 7 = ''overflow'' \<and>
   findSubmenu demo (Some 8) = Some 9 \<and>
   submenu_height (page (activate demo (pointerenter 7) (initial blank 0))) = Some (Px 300) \<and>
   activates demo (pointerenter 10) (initial blank 0) = Some 11 \<and>
   findSubmenu demo (Some 11) = None \<and>
   submenu_height (page (activate demo (pointerenter 10) (initial blank 0))) = Some (Px 200)"
proof -
  have a: "activates demo (pointerenter 7) (initial blank 0) = Some 8" by code_simp
  have b: "target (pointerenter 7) = Some 7" by code_simp
  have c: "slot_of demo 7 \<noteq> []" by code_simp
  have a': "activates demo (pointerenter 10) (initial blank 0) = Some 11" by code_simp
  have b': "target (pointerenter 10) = Some 10" by code_simp
  have c': "slot_of demo 10 \<noteq> []" by code_simp
  have v: "(let s1 = marked_and_watched demo 7 8 ((initial blank 0)\<lparr>hover_events := Suc (hover_events (initial blank 0))\<rparr>);
                   listHeight = list_links_height demo (page s1);
                   panelHeight = panel_height demo (page (snd (getOverflowListLinksHeight demo s1)))
               in if findSubmenu demo (Some 8) \<noteq> None then max panelHeight listHeight
                  else listHeight) = 300"
    by code_simp
  have v': "(let s1 = marked_and_watched demo 10 11 ((initial blank 0)\<lparr>hover_events := Suc (hover_events (initial blank 0))\<rparr>);
                   listHeight = list_links_height demo (page s1);
                   panelHeight = panel_height demo (page (snd (getOverflowListLinksHeight demo s1)))
               in if findSubmenu demo (Some 11) \<noteq> None then max panelHeight listHeight
                  else listHeight) = 200"
    by code_simp
  have d: "slot_of demo 7 = ''overflow''" "findSubmenu demo (Some 8) = Some 9"
    "findSubmenu demo (Some 11) = None" by code_simp+
  from overflow_activation_height [OF a b c] overflow_activation_height [OF a' b' c'] v v' a a' d
  show ?thesis by simp
qed

text \<open>
  The claim as it is stated fails on the "more" item of the small menu: the first
  overflow item has no submenu, the panel is 300 pixels tall and 200 with the nested
  submenu hidden, and the height published is 200.
\<close>

theorem overflow_item_without_submenu_counterexample:
  "slot_of demo 12 = ''more'' \<and>
   activates demo (pointerenter 12) (initial blank 0) = Some 11 \<and>
   findSubmenu demo (Some 11) = None \<and>
   submenu_height (page (activate demo (pointerenter 12) (initial blank 0))) = Some (Px 200) \<and>
   panel_height demo (page (activate demo (pointerenter 12) (initial blank 0))) = 300 \<and>
   list_links_height demo (page (activate demo (pointerenter 12) (initial blank 0))) = 200 \<and>
   max (panel_height demo (page (activate demo (pointerenter 12) (initial blank 0))))
       (list_links_height demo (page (activate demo (pointerenter 12) (initial blank 0)))) = 300"
  by code_simp

section \<open>The cart drawer: the sticky summary\<close>

lemma js_not_gt: "(\<not> js_gt r t) = (js_le r t \<or> r = NaN)"
  by (cases r) auto

lemma sticky_handleHistoryOpen:
  "cart_summary_sticky (handleHistoryOpen V s) = cart_summary_sticky s"
  by (simp add: handleHistoryOpen_def Let_def addPopStateListener_def)

text \<open>
  Claim C2, as the code has it. When the dialog exists, every open sets the attribute
  to \<^verbatim>\<open>'true'\<close> exactly when the content and the summary exist and the ratio
  of the summary's height to the dialog's is at most one half or is not a number, and to
  \<^verbatim>\<open>'false'\<close> exactly when the content or the summary is missing or the ratio
  exceeds one half. The ratio is not a number exactly when both heights are zero.
\<close>

theorem sticky_summary_flag:
  assumes "has_dialog V"
  shows "(cart_summary_sticky (on_dialog_open V s) = Some ''true'' \<longleftrightarrow>
            content_present V \<and>
            (\<exists>h. summary_height V = Some h \<and>
                 (js_le (js_div h (drawer_height V)) (1 / 2) \<or> js_div h (drawer_height V) = NaN))) \<and>
         (cart_summary_sticky (on_dialog_open V s) = Some ''false'' \<longleftrightarrow>
            \<not> content_present V \<or> summary_height V = None \<or>
            (\<exists>h. summary_height V = Some h \<and> js_gt (js_div h (drawer_height V)) (1 / 2))) \<and>
         (\<forall>h. summary_height V = Some h \<longrightarrow>
            (js_div h (drawer_height V) = NaN \<longleftrightarrow> h = 0 \<and> drawer_height V = 0))"
  using assms
  by (auto simp: on_dialog_open_def sticky_handleHistoryOpen updateStickyState_def Let_def
      summaryThreshold_def js_not_gt js_div_def split: option.splits bool.splits if_splits)

text \<open>
  A summary of 100 pixels in a dialog of 400.
\<close>

theorem sticky_summary_flag_witness:
  "has_dialog phone \<and> content_present phone \<and> summary_height phone = Some 100 \<and>
   js_div 100 (drawer_height phone) = Finite (1 / 4) \<and>
   cart_summary_sticky (on_dialog_open phone new_cart) = Some ''true''"
proof -
  have a: "has_dialog phone" "content_present phone" "summary_height phone = Some 100"
    "js_div 100 (drawer_height phone) = Finite (1 / 4)"
    by (simp_all add: phone_def js_div_def)
  from sticky_summary_flag [OF a(1), of new_cart] a show ?thesis by simp
qed

text \<open>
  The claim as it is stated fails when both heights are zero: the ratio is not a
  number, it is not at most one half, and the attribute is set to
  \<^verbatim>\<open>'true'\<close>.
\<close>

theorem sticky_summary_zero_heights_counterexample:
  "has_dialog collapsed \<and> content_present collapsed \<and> summary_height collapsed = Some 0 \<and>
   drawer_height collapsed = 0 \<and> js_div 0 0 = NaN \<and> \<not> js_le (js_div 0 0) (1 / 2) \<and>
   cart_summary_sticky (on_dialog_open collapsed new_cart) = Some ''true''"
  by (simp add: collapsed_def phone_def js_div_def on_dialog_open_def sticky_handleHistoryOpen
      updateStickyState_def summaryThreshold_def)

section \<open>The cart drawer: the history\<close>

lemma hist_updateStickyState: "hist (updateStickyState V s) = hist s"
  by (simp add: updateStickyState_def Let_def split: option.splits bool.splits)

lemma listener_updateStickyState: "popstate_listener (updateStickyState V s) = popstate_listener s"
  by (simp add: updateStickyState_def Let_def split: option.splits bool.splits)

lemma hist_handleHistoryOpen:
  "isMobileBreakpoint V \<Longrightarrow>
   hist (handleHistoryOpen V s) =
     (if cartDrawerOpen (current (hist s)) then hist s else pushState (StateObject True) (hist s))"
  by (simp add: handleHistoryOpen_def Let_def addPopStateListener_def)

lemma hist_handleHistoryClose:
  "hist (handleHistoryClose s) =
     (if cartDrawerOpen (current (hist s)) then history_back (hist s) else hist s)"
  by (simp add: handleHistoryClose_def Let_def abort_def split: option.splits)

lemma listener_open_close:
  assumes "isMobileBreakpoint V" and "popstate_listener s = None"
  shows "popstate_listener (handleHistoryClose (handleHistoryOpen V s)) = None"
  using assms
  by (simp add: handleHistoryClose_def handleHistoryOpen_def Let_def addPopStateListener_def
      abort_def)

lemma open_close_round:
  assumes "isMobileBreakpoint V" and "\<not> cartDrawerOpen (current (hist s))"
    and "pending_back (hist s) = 0" and "popstate_listener s = None"
  shows "hist (open_close V s) =
           \<lparr>back_entries = back_entries (hist s), current = current (hist s),
            forward_entries = [StateObject True], pending_back = 0\<rparr>"
    and "popstate_listener (open_close V s) = None"
proof -
  let ?s1 = "on_dialog_close (on_dialog_open V s)"
  have h1: "hist ?s1 = history_back (pushState (StateObject True) (hist s))"
    using assms(1,2)
    by (simp add: on_dialog_close_def on_dialog_open_def hist_handleHistoryClose
        hist_handleHistoryOpen hist_updateStickyState pushState_def)
  have l1: "popstate_listener ?s1 = None"
    using assms(1,4)
    by (simp add: on_dialog_close_def on_dialog_open_def listener_open_close
        listener_updateStickyState)
  show "hist (open_close V s) =
           \<lparr>back_entries = back_entries (hist s), current = current (hist s),
            forward_entries = [StateObject True], pending_back = 0\<rparr>"
    using h1 l1 assms(3)
    by (simp add: open_close_def traverse_back_def Let_def move_back_def history_back_def
        pushState_def popstate_def)
  show "popstate_listener (open_close V s) = None"
    using h1 l1 assms(3)
    by (simp add: open_close_def traverse_back_def Let_def move_back_def history_back_def
        pushState_def popstate_def)
qed

text \<open>
  Claim C3. On a narrow viewport an open pushes one entry carrying the flag when the
  current entry does not carry it, and leaves the history alone when it does; a push adds
  one entry behind the current one and drops those ahead. A close asks for one traversal
  back when the current entry carries the flag, and for none otherwise. Starting on an
  entry without the flag, with no traversal pending and no listener registered, a second
  round of open, close and traversal leaves the history as the first round left it: the
  current entry and the entries behind it are those of the start, the one pushed entry
  is ahead, and the history is at most one entry longer than at the start.
\<close>

theorem drawer_history_rounds:
  assumes "isMobileBreakpoint V"
  shows "hist (on_dialog_open V s) =
           (if cartDrawerOpen (current (hist s)) then hist s
            else pushState (StateObject True) (hist s)) \<and>
         hist (on_dialog_close s) =
           (if cartDrawerOpen (current (hist s)) then history_back (hist s) else hist s) \<and>
         history_length (pushState (StateObject True) (hist s)) = length (back_entries (hist s)) + 2 \<and>
         pending_back (history_back (hist s)) = pending_back (hist s) + 1 \<and>
         (\<not> cartDrawerOpen (current (hist s)) \<and> pending_back (hist s) = 0 \<and>
          popstate_listener s = None \<longrightarrow>
            hist (open_close V (open_close V s)) = hist (open_close V s) \<and>
            current (hist (open_close V (open_close V s))) = current (hist s) \<and>
            back_entries (hist (open_close V (open_close V s))) = back_entries (hist s) \<and>
            pending_back (hist (open_close V (open_close V s))) = 0 \<and>
            history_length (hist (open_close V (open_close V s))) \<le> history_length (hist s) + 1)"
proof (intro conjI impI)
  show "hist (on_dialog_open V s) =
           (if cartDrawerOpen (current (hist s)) then hist s
            else pushState (StateObject True) (hist s))"
    using assms by (simp add: on_dialog_open_def hist_handleHistoryOpen hist_updateStickyState)
  show "hist (on_dialog_close s) =
           (if cartDrawerOpen (current (hist s)) then history_back (hist s) else hist s)"
    by (simp add: on_dialog_close_def hist_handleHistoryClose)
  show "history_length (pushState (StateObject True) (hist s)) = length (back_entries (hist s)) + 2"
    by (simp add: history_length_def pushState_def)
  show "pending_back (history_back (hist s)) = pending_back (hist s) + 1"
    by (simp add: history_back_def)
next
  assume h: "\<not> cartDrawerOpen (current (hist s)) \<and> pending_back (hist s) = 0 \<and>
          popstate_listener s = None"
  let ?once = "open_close V s"
  have once: "hist ?once = \<lparr>back_entries = back_entries (hist s), current = current (hist s),
            forward_entries = [StateObject True], pending_back = 0\<rparr>"
    and l: "popstate_listener ?once = None"
    using open_close_round [OF assms, of s] h by simp_all
  have twice: "hist (open_close V ?once) =
           \<lparr>back_entries = back_entries (hist ?once), current = current (hist ?once),
            forward_entries = [StateObject True], pending_back = 0\<rparr>"
    using open_close_round(1) [OF assms, of ?once] h l once by simp
  show "hist (open_close V (open_close V s)) = hist (open_close V s)"
    using once twice by simp
  show "current (hist (open_close V (open_close V s))) = current (hist s)"
    using once twice by simp
  show "back_entries (hist (open_close V (open_close V s))) = back_entries (hist s)"
    using once twice by simp
  show "pending_back (hist (open_close V (open_close V s))) = 0"
    using once twice by simp
  show "history_length (hist (open_close V (open_close V s))) \<le> history_length (hist s) + 1"
    using once twice by (simp add: history_length_def)
qed

text \<open>
  The new drawer on a narrow viewport: two entries at the start, three with the
  drawer open, and three after two rounds.
\<close>

lemma new_cart_facts:
  "\<not> cartDrawerOpen (current (hist new_cart))" "pending_back (hist new_cart) = 0"
  "popstate_listener new_cart = None" "history_length (hist new_cart) = 2"
  "\<not> dialog_open new_cart"
  by (simp_all add: new_cart_def connectedCallback_def history_length_def)

theorem drawer_history_rounds_witness:
  "isMobileBreakpoint phone \<and>
   \<not> cartDrawerOpen (current (hist new_cart)) \<and> pending_back (hist new_cart) = 0 \<and>
   popstate_listener new_cart = None \<and> history_length (hist new_cart) = 2 \<and>
   history_length (hist (on_dialog_open phone new_cart)) = 3 \<and>
   hist (open_close phone (open_close phone new_cart)) = hist (open_close phone new_cart) \<and>
   current (hist (open_close phone (open_close phone new_cart))) = Null \<and>
   back_entries (hist (open_close phone (open_close phone new_cart))) = [Null] \<and>
   history_length (hist (open_close phone (open_close phone new_cart))) \<le> 3"
proof -
  have m: "isMobileBreakpoint phone" by (simp add: phone_def)
  note r = drawer_history_rounds [OF m, of new_cart]
  have n: "current (hist new_cart) = Null" "back_entries (hist new_cart) = [Null]"
    by (simp_all add: new_cart_def connectedCallback_def)
  from r new_cart_facts(1) have "hist (on_dialog_open phone new_cart) =
      pushState (StateObject True) (hist new_cart)" by simp
  with r n have a: "history_length (hist (on_dialog_open phone new_cart)) = 3" by simp
  from r new_cart_facts(1,2,3)
  have b: "hist (open_close phone (open_close phone new_cart)) = hist (open_close phone new_cart)"
    and c: "current (hist (open_close phone (open_close phone new_cart))) = current (hist new_cart)"
    and d: "back_entries (hist (open_close phone (open_close phone new_cart))) =
              back_entries (hist new_cart)"
    and e: "history_length (hist (open_close phone (open_close phone new_cart)))
              \<le> history_length (hist new_cart) + 1"
    by blast+
  from c n have c': "current (hist (open_close phone (open_close phone new_cart))) = Null" by simp
  from d n have d': "back_entries (hist (open_close phone (open_close phone new_cart))) = [Null]"
    by simp
  from e new_cart_facts(4)
  have e': "history_length (hist (open_close phone (open_close phone new_cart))) \<le> 3" by simp
  from m new_cart_facts(1,2,3,4) a b c' d' e' show ?thesis by blast
qed

section \<open>The cart drawer: navigation while the dialog is open\<close>

lemma handleHistoryClose_frame:
  "dialog_open (handleHistoryClose s) = dialog_open s"
  "closed_without_animation (handleHistoryClose s) = closed_without_animation s"
  "closing_animation (handleHistoryClose s) = closing_animation s"
  by (simp_all add: handleHistoryClose_def Let_def abort_def split: option.splits)

text \<open>
  History synchronisation is for narrow viewports: an open on a narrow viewport registers
  the listener for \<^verbatim>\<open>popstate\<close>.
\<close>

lemma updateStickyState_frame:
  "dialog_open (updateStickyState V s) = dialog_open s"
  "closed_without_animation (updateStickyState V s) = closed_without_animation s"
  "popstate_listener (updateStickyState V s) = popstate_listener s"
  "aborted (updateStickyState V s) = aborted s"
  "controllers (updateStickyState V s) = controllers s"
  by (simp_all add: updateStickyState_def Let_def split: option.splits bool.splits)

lemma handleHistoryOpen_frame:
  "dialog_open (handleHistoryOpen V s) = dialog_open s"
  "closed_without_animation (handleHistoryOpen V s) = closed_without_animation s"
  by (simp_all add: handleHistoryOpen_def Let_def addPopStateListener_def)

lemma listener_handleHistoryOpen:
  "isMobileBreakpoint V \<Longrightarrow> controllers s \<notin> aborted s \<Longrightarrow>
   popstate_listener (handleHistoryOpen V s) \<noteq> None"
  by (simp add: handleHistoryOpen_def Let_def addPopStateListener_def)

lemma showDialog_narrow:
  assumes "has_dialog V" and "isMobileBreakpoint V" and "\<not> dialog_open s"
    and "controllers s \<notin> aborted s"
  shows "dialog_open (showDialog V s)" and "popstate_listener (showDialog V s) \<noteq> None"
    and "closed_without_animation (showDialog V s) = closed_without_animation s"
proof -
  let ?s1 = "updateStickyState V (s\<lparr>dialog_open := True\<rparr>)"
  have eq: "showDialog V s = handleHistoryOpen V ?s1"
    using assms(1,3) by (simp add: showDialog_def on_dialog_open_def)
  show "dialog_open (showDialog V s)"
    by (simp add: eq handleHistoryOpen_frame updateStickyState_frame)
  have "controllers ?s1 \<notin> aborted ?s1"
    using assms(4) by (simp add: updateStickyState_frame)
  then show "popstate_listener (showDialog V s) \<noteq> None"
    using assms(2) by (simp only: eq listener_handleHistoryOpen not_False_eq_True)
  show "closed_without_animation (showDialog V s) = closed_without_animation s"
    by (simp add: eq handleHistoryOpen_frame updateStickyState_frame)
qed

lemma popstate_registered:
  assumes "has_dialog V" and "dialog_open s" and "popstate_listener s \<noteq> None"
  shows "\<not> dialog_open (popstate V s)"
    and "closed_without_animation (popstate V s) = closed_without_animation s @ [True]"
    and "closing_animation (popstate V s) = None"
  using assms
  by (simp_all add: popstate_def handlePopState_def closeDialog_def Let_def on_dialog_close_def
      handleHistoryClose_frame)

text \<open>
  Claim C9. When the dialog is open and the listener is registered, a
  \<^verbatim>\<open>popstate\<close> event closes the dialog, the close happens with the closing
  animation switched off, and afterwards the inline property is removed again. That is
  the case for every drawer opened on a narrow viewport: the open registers the listener,
  and the navigation that follows closes the dialog in this way.
\<close>

theorem popstate_closes_without_animation:
  assumes "has_dialog V" and "dialog_open s" and "popstate_listener s \<noteq> None"
  shows "\<not> dialog_open (popstate V s) \<and>
         closed_without_animation (popstate V s) = closed_without_animation s @ [True] \<and>
         closing_animation (popstate V s) = None \<and>
         (\<forall>(V0::view) s0. has_dialog V0 \<and> isMobileBreakpoint V0 \<and> \<not> dialog_open s0 \<and>
                   controllers s0 \<notin> aborted s0 \<longrightarrow>
            dialog_open (showDialog V0 s0) \<and>
            popstate_listener (showDialog V0 s0) \<noteq> None \<and>
            \<not> dialog_open (popstate V (showDialog V0 s0)) \<and>
            closed_without_animation (popstate V (showDialog V0 s0)) =
              closed_without_animation s0 @ [True] \<and>
            closing_animation (popstate V (showDialog V0 s0)) = None)"
proof (intro conjI allI impI)
  show "\<not> dialog_open (popstate V s)"
    and "closed_without_animation (popstate V s) = closed_without_animation s @ [True]"
    and "closing_animation (popstate V s) = None"
    by (rule popstate_registered [OF assms])+
next
  fix V0 :: view and s0 :: cart
  assume h: "has_dialog V0 \<and> isMobileBreakpoint V0 \<and> \<not> dialog_open s0 \<and>
             controllers s0 \<notin> aborted s0"
  then have o: "dialog_open (showDialog V0 s0)" and l: "popstate_listener (showDialog V0 s0) \<noteq> None"
    and c: "closed_without_animation (showDialog V0 s0) = closed_without_animation s0"
    by (simp_all add: showDialog_narrow)
  show "dialog_open (showDialog V0 s0)" by (rule o)
  show "popstate_listener (showDialog V0 s0) \<noteq> None" by (rule l)
  show "\<not> dialog_open (popstate V (showDialog V0 s0))"
    by (rule popstate_registered(1) [OF assms(1) o l])
  show "closed_without_animation (popstate V (showDialog V0 s0)) =
          closed_without_animation s0 @ [True]"
    using popstate_registered(2) [OF assms(1) o l] c by simp
  show "closing_animation (popstate V (showDialog V0 s0)) = None"
    by (rule popstate_registered(3) [OF assms(1) o l])
qed

text \<open>
  The new drawer opened on a narrow viewport.
\<close>

lemma opened_on_phone:
  "dialog_open (showDialog phone new_cart)" "popstate_listener (showDialog phone new_cart) = Some 0"
  "closed_without_animation (showDialog phone new_cart) = []"
  by (simp_all add: showDialog_def phone_def new_cart_def connectedCallback_def on_dialog_open_def
      updateStickyState_def handleHistoryOpen_def Let_def addPopStateListener_def)

theorem popstate_closes_without_animation_witness:
  "has_dialog phone \<and> dialog_open (showDialog phone new_cart) \<and>
   popstate_listener (showDialog phone new_cart) = Some 0 \<and>
   \<not> dialog_open (popstate phone (showDialog phone new_cart)) \<and>
   closed_without_animation (popstate phone (showDialog phone new_cart)) = [True] \<and>
   closing_animation (popstate phone (showDialog phone new_cart)) = None"
proof -
  have d: "has_dialog phone" by (simp add: phone_def)
  have l: "popstate_listener (showDialog phone new_cart) \<noteq> None" by (simp add: opened_on_phone)
  from popstate_closes_without_animation [OF d opened_on_phone(1) l] d opened_on_phone
  show ?thesis by simp
qed

text \<open>
  On a wide viewport the history is not synchronised: no listener is registered, and a
  navigation leaves the dialog as it is.
\<close>

lemma popstate_on_wide_viewport:
  "has_dialog desktop \<and> \<not> isMobileBreakpoint desktop \<and>
   dialog_open (showDialog desktop new_cart) \<and>
   popstate_listener (showDialog desktop new_cart) = None \<and>
   dialog_open (popstate desktop (showDialog desktop new_cart)) \<and>
   dialog_open (user_back desktop (showDialog desktop new_cart)) \<and>
   current (hist (user_back desktop (showDialog desktop new_cart))) = Null \<and>
   forward_entries (hist (user_back desktop (showDialog desktop new_cart))) = [Null] \<and>
   closed_without_animation (user_back desktop (showDialog desktop new_cart)) = []"
  by (simp add: showDialog_def desktop_def phone_def new_cart_def connectedCallback_def
      on_dialog_open_def updateStickyState_def handleHistoryOpen_def Let_def popstate_def
      user_back_def move_back_def js_div_def summaryThreshold_def)

end
